theory Spec2Isabelle
  imports Complex_Main
begin

section \<open>Python values shared by both workers\<close>

text \<open>
  Source: \<^verbatim>\<open>stytra/hardware/cameras.py\<close>. Python floats and unbounded ints are
  modelled as rationals and mathematical integers; float arithmetic is taken as exact.
  Wall-clock readings (\<^verbatim>\<open>datetime.now()\<close>) and waiting times are rationals in seconds.
\<close>

datatype exn = Empty | AttributeError | ZeroDivisionError | ProcessingError

text \<open>
  The outcome of a piece of straight-line code: it either runs to its end, or it raises,
  and in both cases the state carries the effects that happened up to that point.
\<close>

datatype 's res = Done 's | Raise exn 's

definition and_then :: "'s res \<Rightarrow> ('s \<Rightarrow> 's res) \<Rightarrow> 's res" where
  "and_then r k = (case r of Done s \<Rightarrow> k s | Raise e s \<Rightarrow> Raise e s)"

text \<open>Python's \<^verbatim>\<open>int(x)\<close> on a float: truncation towards zero.\<close>

definition py_int :: "rat \<Rightarrow> int" where
  "py_int x = (if 0 \<le> x then \<lfloor>x\<rfloor> else \<lceil>x\<rceil>)"

section \<open>FrameDispatcher\<close>

text \<open>
  What the GUI queue receives: \<^verbatim>\<open>np.swapaxes(frame, 0, 1)\<close>, kept symbolic.
\<close>

datatype 'f display_item = Swapaxes 'f

text \<open>
  The attributes of the dispatcher that \<^verbatim>\<open>run\<close> only reads. A processing function
  returns a result or raises; \<^verbatim>\<open>None\<close> is the constructor's default.
\<close>

record ('f, 'r) dispatcher_cfg =
  processing_function :: "('f \<Rightarrow> exn + 'r) option"
  gui_framerate :: rat

text \<open>
  The mutable state of \<^verbatim>\<open>run\<close>: its local variables (\<open>fps_i\<close> is the local
  \<^verbatim>\<open>i\<close>), the attribute \<^verbatim>\<open>self.i\<close>, the contents written to the two sinks
  (\<open>output_queue = None\<close> when no output queue was given), the text printed, and
  as a ghost field the frames the processing function has been called on.
\<close>

record ('f, 'r) dispatcher =
  previous_time :: rat
  fps_i :: int
  current_framerate :: rat
  every_x :: int
  self_i :: int
  output_queue :: "'r list option"
  gui_queue :: "'f display_item list"
  invoked :: "'f list"
  printed :: "string list"

text \<open>
  One frame put on the frame queue by the camera: \<open>wait\<close> is how long
  \<^verbatim>\<open>frame_queue.get\<close> blocks before the frame is there, \<open>now\<close> is what
  \<^verbatim>\<open>datetime.now()\<close> reads in the iteration that handles it.
\<close>

record 'f arrival =
  wait :: rat
  frame :: 'f
  now :: rat

definition n_fps_frames :: int where
  "n_fps_frames = 10"

definition get_timeout :: rat where
  "get_timeout = 5"

text \<open>\<^verbatim>\<open>__init__\<close> followed by the first five lines of \<^verbatim>\<open>run\<close>.\<close>

definition dispatcher_init :: "rat \<Rightarrow> 'r list option \<Rightarrow> ('f, 'r) dispatcher" where
  "dispatcher_init t0 out =
     \<lparr>previous_time = t0, fps_i = 0, current_framerate = 100, every_x = 10, self_i = 0,
      output_queue = out, gui_queue = [], invoked = [], printed = []\<rparr>"

text \<open>
  Lines 65-66. Python evaluates \<^verbatim>\<open>self.output_queue.put\<close> before the argument, so a
  missing output queue raises before the processing function is called.
\<close>

definition process_frame ::
  "('f, 'r) dispatcher_cfg \<Rightarrow> 'f \<Rightarrow> ('f, 'r) dispatcher \<Rightarrow> ('f, 'r) dispatcher res" where
  "process_frame cfg f st =
     (case processing_function cfg of
        None \<Rightarrow> Done st
      | Some pf \<Rightarrow>
          (case output_queue st of
             None \<Rightarrow> Raise AttributeError st
           | Some q \<Rightarrow>
               (case pf f of
                  Inl e \<Rightarrow> Raise e (st\<lparr>invoked := invoked st @ [f]\<rparr>)
                | Inr r \<Rightarrow> Done (st\<lparr>invoked := invoked st @ [f],
                                     output_queue := Some (q @ [r])\<rparr>))))"

text \<open>Line 71: the decimation stride from the two rates.\<close>

definition stride :: "rat \<Rightarrow> rat \<Rightarrow> int" where
  "stride rate target = max (py_int (rate / target)) 1"

text \<open>Lines 68-74.\<close>

definition calculate_framerate ::
  "('f, 'r) dispatcher_cfg \<Rightarrow> rat \<Rightarrow> ('f, 'r) dispatcher \<Rightarrow> ('f, 'r) dispatcher res" where
  "calculate_framerate cfg current_time st =
     (if fps_i st = n_fps_frames - 1 then
        (if current_time - previous_time st = 0 then Raise ZeroDivisionError st
         else
           let st1 = st\<lparr>current_framerate :=
                           of_int n_fps_frames / (current_time - previous_time st)\<rparr>
           in if gui_framerate cfg = 0 then Raise ZeroDivisionError st1
              else Done (st1\<lparr>every_x := stride (current_framerate st1) (gui_framerate cfg),
                             previous_time := current_time,
                             fps_i := (fps_i st + 1) mod n_fps_frames\<rparr>))
      else Done (st\<lparr>fps_i := (fps_i st + 1) mod n_fps_frames\<rparr>))"

text \<open>Lines 75-77.\<close>

definition display_frame :: "'f \<Rightarrow> ('f, 'r) dispatcher \<Rightarrow> ('f, 'r) dispatcher res" where
  "display_frame f st =
     (let st1 = (if self_i st = 0 then st\<lparr>gui_queue := gui_queue st @ [Swapaxes f]\<rparr>
                 else st)
      in if every_x st1 = 0 then Raise ZeroDivisionError st1
         else Done (st1\<lparr>self_i := (self_i st1 + 1) mod every_x st1\<rparr>))"

text \<open>The body of the \<^verbatim>\<open>try\<close> once a frame has been taken from the queue.\<close>

definition loop_body ::
  "('f, 'r) dispatcher_cfg \<Rightarrow> 'f arrival \<Rightarrow> ('f, 'r) dispatcher \<Rightarrow> ('f, 'r) dispatcher res" where
  "loop_body cfg a st =
     and_then (and_then (process_frame cfg (frame a) st) (calculate_framerate cfg (now a)))
       (display_frame (frame a))"

text \<open>The \<^verbatim>\<open>except Empty\<close> handler.\<close>

definition report_empty :: "('f, 'r) dispatcher \<Rightarrow> ('f, 'r) dispatcher" where
  "report_empty st = st\<lparr>printed := printed st @ [''empty_queue'']\<rparr>"

datatype outcome = EndOfStream | Raised exn

text \<open>
  The \<^verbatim>\<open>while True\<close> loop over the frames the camera puts on the queue. After the
  last one the queue stays empty, and \<^verbatim>\<open>get(timeout=5)\<close> raises \<^verbatim>\<open>Empty\<close>; so it
  does when a frame takes longer than the timeout. The handler catches \<^verbatim>\<open>Empty\<close>
  from anywhere in the body; any other exception leaves \<^verbatim>\<open>run\<close>.
\<close>

fun run_loop ::
  "('f, 'r) dispatcher_cfg \<Rightarrow> ('f, 'r) dispatcher \<Rightarrow> 'f arrival list
     \<Rightarrow> outcome \<times> ('f, 'r) dispatcher" where
  "run_loop cfg st [] = (EndOfStream, report_empty st)"
| "run_loop cfg st (a # as) =
     (if get_timeout < wait a then (EndOfStream, report_empty st)
      else (case loop_body cfg a st of
              Done st' \<Rightarrow> run_loop cfg st' as
            | Raise e st' \<Rightarrow>
                (if e = Empty then (EndOfStream, report_empty st') else (Raised e, st'))))"

definition run ::
  "('f, 'r) dispatcher_cfg \<Rightarrow> rat \<Rightarrow> 'r list option \<Rightarrow> 'f arrival list
     \<Rightarrow> outcome \<times> ('f, 'r) dispatcher" where
  "run cfg t0 out arrivals = run_loop cfg (dispatcher_init t0 out) arrivals"

text \<open>
  The iterations of the loop for frames that \<^verbatim>\<open>get\<close> returned in time, stopping at
  the first exception: the loop without its exit through the handler.
\<close>

fun handle_frames ::
  "('f, 'r) dispatcher_cfg \<Rightarrow> ('f, 'r) dispatcher \<Rightarrow> 'f arrival list
     \<Rightarrow> ('f, 'r) dispatcher res" where
  "handle_frames cfg st [] = Done st"
| "handle_frames cfg st (a # as) =
     and_then (loop_body cfg a st) (\<lambda>st'. handle_frames cfg st' as)"


section \<open>XimeaCamera\<close>

text \<open>
  A control update is a Python dict from parameter names to numbers.
\<close>

type_synonym control_params = "string \<rightharpoonup> rat"

text \<open>The calls made on the \<^verbatim>\<open>xiapi\<close> camera handle, in order.\<close>

datatype device_call = OpenDevice | StartAcquisition | SetExposure int | SetGain rat | GetImage

text \<open>
  The camera process: the two device parameters the loop sets, the log of device calls,
  the frames put on \<^verbatim>\<open>self.q\<close> (\<open>cam_q\<close>), and the pending contents of the control
  queue, oldest first (\<open>None\<close> when the process was built without one).
\<close>

record 'f camera =
  exposure :: int
  gain :: rat
  device_calls :: "device_call list"
  cam_q :: "'f list"
  control_queue :: "control_params list option"

definition set_exposure :: "int \<Rightarrow> 'f camera \<Rightarrow> 'f camera" where
  "set_exposure v st = st\<lparr>exposure := v, device_calls := device_calls st @ [SetExposure v]\<rparr>"

definition set_gain :: "rat \<Rightarrow> 'f camera \<Rightarrow> 'f camera" where
  "set_gain g st = st\<lparr>gain := g, device_calls := device_calls st @ [SetGain g]\<rparr>"

text \<open>Lines 17-21; \<open>g0\<close> is the gain the device has when it is opened.\<close>

definition camera_start :: "rat \<Rightarrow> control_params list option \<Rightarrow> 'f camera" where
  "camera_start g0 cq =
     set_exposure 1000
       \<lparr>exposure = 0, gain = g0, device_calls = [OpenDevice, StartAcquisition],
        cam_q = [], control_queue = cq\<rparr>"

text \<open>Lines 27-30: the two recognised keys, each looked up on its own.\<close>

definition apply_control :: "control_params \<Rightarrow> 'f camera \<Rightarrow> 'f camera" where
  "apply_control control_params st =
     (let st1 = (case control_params ''exposure'' of
                   None \<Rightarrow> st
                 | Some v \<Rightarrow> set_exposure (py_int (v * 1000)) st)
      in case control_params ''gain'' of
           None \<Rightarrow> st1
         | Some g \<Rightarrow> set_gain g st1)"

text \<open>
  Lines 24-32: \<^verbatim>\<open>control_queue.get\<close> takes the oldest pending update, or raises
  \<^verbatim>\<open>Empty\<close>, which is passed over.
\<close>

definition poll_control :: "'f camera \<Rightarrow> 'f camera" where
  "poll_control st =
     (case control_queue st of
        None \<Rightarrow> st
      | Some [] \<Rightarrow> st
      | Some (u # us) \<Rightarrow> apply_control u (st\<lparr>control_queue := Some us\<rparr>))"

text \<open>Lines 35-37.\<close>

definition capture :: "'f \<Rightarrow> 'f camera \<Rightarrow> 'f camera" where
  "capture img st = st\<lparr>device_calls := device_calls st @ [GetImage], cam_q := cam_q st @ [img]\<rparr>"

text \<open>
  What the surroundings do during one iteration of the camera loop: the updates the
  controller has put on the control queue since the previous poll, what
  \<^verbatim>\<open>signal.is_set()\<close> answers at line 33, and the image the device holds.
\<close>

record 'f camera_env =
  written :: "control_params list"
  signal_set :: bool
  next_image :: 'f

definition controller_writes :: "control_params list \<Rightarrow> 'f camera \<Rightarrow> 'f camera" where
  "controller_writes us st = st\<lparr>control_queue := map_option (\<lambda>c. c @ us) (control_queue st)\<rparr>"

text \<open>One iteration; the flag says whether the loop goes on.\<close>

definition camera_iteration :: "'f camera_env \<Rightarrow> 'f camera \<Rightarrow> bool \<times> 'f camera" where
  "camera_iteration env st =
     (let st1 = poll_control (controller_writes (written env) st)
      in if signal_set env then (False, st1) else (True, capture (next_image env) st1))"

datatype camera_status = Exited | Running

text \<open>
  The \<^verbatim>\<open>while True\<close> loop over the iterations the surroundings describe; \<open>Running\<close>
  when they end before the signal was seen set.
\<close>

fun camera_loop :: "'f camera \<Rightarrow> 'f camera_env list \<Rightarrow> camera_status \<times> 'f camera" where
  "camera_loop st [] = (Running, st)"
| "camera_loop st (env # envs) =
     (case camera_iteration env st of
        (False, st') \<Rightarrow> (Exited, st')
      | (True, st') \<Rightarrow> camera_loop st' envs)"

section \<open>Concrete runs\<close>

text \<open>
  A dispatcher built like the one in the module's main block: no processing function,
  no output queue, target display rate \<open>d\<close>.
\<close>

definition display_only :: "rat \<Rightarrow> (nat, nat) dispatcher_cfg" where
  "display_only d = \<lparr>processing_function = None, gui_framerate = d\<rparr>"

text \<open>
  \<open>n\<close> frames numbered from 0 that arrive every \<open>dt\<close> seconds, the clock
  starting at 0.
\<close>

definition steady_frames :: "rat \<Rightarrow> nat \<Rightarrow> nat arrival list" where
  "steady_frames dt n = map (\<lambda>k. \<lparr>wait = dt, frame = k, now = of_nat (k + 1) * dt\<rparr>) [0..<n]"

section \<open>Properties of the dispatcher loop\<close>

lemmas body_defs = loop_body_def and_then_def process_frame_def calculate_framerate_def
  display_frame_def Let_def


lemma stride_pos: "1 \<le> stride r d"
  by (simp add: stride_def)

lemma stride_nonzero: "stride r d \<noteq> 0"
  using stride_pos [of r d] by simp


lemma loop_body_invoked_done:
  assumes "loop_body cfg a st = Done st1" "processing_function cfg = Some pf"
  shows "invoked st1 = invoked st @ [frame a]"
  using assms
  by (auto simp: body_defs split: option.splits sum.splits if_splits)

lemma loop_body_invoked_raise:
  assumes "loop_body cfg a st = Raise e st1"
  shows "invoked st1 = invoked st \<or> invoked st1 = invoked st @ [frame a]"
  using assms
  by (auto simp: body_defs split: option.splits sum.splits if_splits)

lemma loop_body_raise_empty:
  assumes "loop_body cfg a st = Raise Empty st1"
  shows "\<exists>pf. processing_function cfg = Some pf \<and> pf (frame a) = Inl Empty"
  using assms
  by (auto simp: body_defs split: option.splits sum.splits if_splits)

lemma report_empty_fields [simp]:
  "invoked (report_empty st) = invoked st"
  "gui_queue (report_empty st) = gui_queue st"
  "output_queue (report_empty st) = output_queue st"
  "every_x (report_empty st) = every_x st"
  "self_i (report_empty st) = self_i st"
  by (simp_all add: report_empty_def)

lemma invoked_prefix:
  assumes "processing_function cfg = Some pf"
  shows "\<exists>n\<le>length as. invoked (snd (run_loop cfg st as)) = invoked st @ map frame (take n as)"
proof (induction as arbitrary: st)
  case Nil
  then show ?case by simp
next
  case (Cons a as)
  show ?case
  proof (cases "get_timeout < wait a")
    case True
    then have "invoked (snd (run_loop cfg st (a # as))) = invoked st @ map frame (take 0 (a # as))"
      by simp
    then show ?thesis by blast
  next
    case late: False
    show ?thesis
    proof (cases "loop_body cfg a st")
      case (Done st1)
      from Cons.IH [of st1] obtain n where n: "n \<le> length as"
        "invoked (snd (run_loop cfg st1 as)) = invoked st1 @ map frame (take n as)" by blast
      have "invoked (snd (run_loop cfg st (a # as))) = invoked st @ map frame (take (Suc n) (a # as))"
        using late Done n loop_body_invoked_done [OF Done assms] by simp
      moreover have "Suc n \<le> length (a # as)" using n by simp
      ultimately show ?thesis by blast
    next
      case (Raise e st1)
      then have inv: "invoked (snd (run_loop cfg st (a # as))) = invoked st1"
        using late by simp
      from loop_body_invoked_raise [OF Raise]
      have "invoked st1 = invoked st @ map frame (take 0 (a # as))
          \<or> invoked st1 = invoked st @ map frame (take 1 (a # as))" by simp
      then show ?thesis using inv
        by (metis One_nat_def le0 length_Cons Suc_le_mono)
    qed
  qed
qed

lemma invoked_all:
  assumes "processing_function cfg = Some pf"
    and "fst (run_loop cfg st as) = EndOfStream"
    and "\<forall>a\<in>set as. wait a \<le> get_timeout \<and> pf (frame a) \<noteq> Inl Empty"
  shows "invoked (snd (run_loop cfg st as)) = invoked st @ map frame as"
  using assms(2,3)
proof (induction as arbitrary: st)
  case Nil
  then show ?case by simp
next
  case (Cons a as)
  then have w: "\<not> get_timeout < wait a" and ne: "pf (frame a) \<noteq> Inl Empty" by auto
  show ?case
  proof (cases "loop_body cfg a st")
    case (Done st1)
    then have "fst (run_loop cfg st1 as) = EndOfStream" using Cons.prems(1) w by simp
    then have "invoked (snd (run_loop cfg st1 as)) = invoked st1 @ map frame as"
      using Cons.IH Cons.prems(2) by simp
    then show ?thesis using Done w loop_body_invoked_done [OF Done assms(1)] by simp
  next
    case (Raise e st1)
    then have "e = Empty" using Cons.prems(1) w by (simp split: if_splits)
    with Raise loop_body_raise_empty [of cfg a st st1] assms(1) ne show ?thesis by auto
  qed
qed




lemma run_loop_handle_frames:
  "\<forall>a\<in>set as. wait a \<le> get_timeout \<Longrightarrow> handle_frames cfg st as = Done st' \<Longrightarrow>
     run_loop cfg st (as @ rest) = run_loop cfg st' rest"
  by (induction as arbitrary: st) (auto simp: and_then_def split: res.splits)







lemma run_loop_starved:
  "get_timeout < wait a \<Longrightarrow> run_loop cfg st (pre @ a # rest) = run_loop cfg st pre"
  by (induction pre arbitrary: st) (auto split: res.splits)

lemma run_loop_no_empty: "fst (run_loop cfg st xs) \<noteq> Raised Empty"
  by (induction xs arbitrary: st) (auto split: res.splits)

lemma loop_body_completes:
  assumes "processing_function cfg = Some pf" and "pf (frame a) = Inr r"
    and "output_queue st = Some q" and "gui_framerate cfg \<noteq> 0"
    and "now a \<noteq> previous_time st" and "every_x st \<noteq> 0"
  shows "\<exists>st1. loop_body cfg a st = Done st1 \<and> invoked st1 = invoked st @ [frame a] \<and>
           output_queue st1 = Some (q @ [r]) \<and> every_x st1 \<noteq> 0 \<and>
           (previous_time st1 = previous_time st \<or> previous_time st1 = now a)"
  using assms stride_nonzero
  by (auto simp: body_defs split: option.splits sum.splits if_splits)

lemma run_loop_completes:
  assumes pf: "processing_function cfg = Some pf" and d: "gui_framerate cfg \<noteq> 0"
  shows "\<forall>a\<in>set as. wait a \<le> get_timeout \<and> pf (frame a) = Inr (g (frame a)) \<Longrightarrow>
         sorted_wrt (<) (previous_time st # map now as) \<Longrightarrow>
         output_queue st = Some q \<Longrightarrow> every_x st \<noteq> 0 \<Longrightarrow>
         \<exists>st'. run_loop cfg st as = (EndOfStream, st') \<and>
           invoked st' = invoked st @ map frame as \<and>
           output_queue st' = Some (q @ map (\<lambda>a. g (frame a)) as)"
proof (induction as arbitrary: st q)
  case Nil
  then show ?case by simp
next
  case (Cons a as)
  have w: "\<not> get_timeout < wait a" and r: "pf (frame a) = Inr (g (frame a))"
    using Cons.prems(1) by auto
  have t: "now a \<noteq> previous_time st" using Cons.prems(2) by auto
  from loop_body_completes [OF pf r Cons.prems(3) d t Cons.prems(4)]
  obtain st1 where b: "loop_body cfg a st = Done st1"
    and i: "invoked st1 = invoked st @ [frame a]"
    and o: "output_queue st1 = Some (q @ [g (frame a)])" and e: "every_x st1 \<noteq> 0"
    and p: "previous_time st1 = previous_time st \<or> previous_time st1 = now a" by blast
  have s: "sorted_wrt (<) (previous_time st1 # map now as)"
    using p Cons.prems(2) by auto
  from Cons.IH [OF _ s o e] Cons.prems(1)
  obtain st' where "run_loop cfg st1 as = (EndOfStream, st')"
    "invoked st' = invoked st1 @ map frame as"
    "output_queue st' = Some ((q @ [g (frame a)]) @ map (\<lambda>a. g (frame a)) as)" by auto
  then show ?case using b w i by simp
qed

lemma gui_queue_grows:
  "\<exists>more. gui_queue (snd (run_loop cfg st as)) = gui_queue st @ more"
proof (induction as arbitrary: st)
  case Nil
  then show ?case by simp
next
  case (Cons a as)
  have step: "\<exists>more. gui_queue st1 = gui_queue st @ more"
    if "loop_body cfg a st = Done st1 \<or> loop_body cfg a st = Raise e st1" for e st1
    using that by (auto simp: body_defs split: option.splits sum.splits if_splits)
  show ?case
  proof (cases "get_timeout < wait a")
    case True
    then show ?thesis by simp
  next
    case False
    show ?thesis
    proof (cases "loop_body cfg a st")
      case (Done st1)
      with step [of st1] Cons.IH [of st1] False show ?thesis by auto
    next
      case (Raise e st1)
      with step [of st1 e] False show ?thesis by auto
    qed
  qed
qed

lemma first_window_stride:
  assumes "0 \<le> fps_i st" and "fps_i st + int (length pre) < n_fps_frames"
  shows "case handle_frames cfg st pre of
           Done st' \<Rightarrow> every_x st' = every_x st
         | Raise e st' \<Rightarrow> every_x st' = every_x st"
  using assms
proof (induction pre arbitrary: st)
  case Nil
  then show ?case by simp
next
  case (Cons a pre)
  show ?case
  proof (cases "loop_body cfg a st")
    case (Done st1)
    then have "every_x st1 = every_x st \<and> fps_i st1 = fps_i st + 1"
      using Cons.prems
      by (auto simp: body_defs n_fps_frames_def split: option.splits sum.splits if_splits)
    with Cons.IH [of st1] Cons.prems Done show ?thesis
      by (simp add: and_then_def split: res.splits)
  next
    case (Raise e st1)
    then have "every_x st1 = every_x st"
      using Cons.prems
      by (auto simp: body_defs n_fps_frames_def split: option.splits sum.splits if_splits)
    with Raise show ?thesis by (simp add: and_then_def)
  qed
qed

lemma first_frame_body:
  assumes "process_frame cfg (frame a) (dispatcher_init t0 out) = Done st1"
  shows "\<exists>st2. loop_body cfg a (dispatcher_init t0 out) = Done st2 \<and>
           gui_queue st2 = [Swapaxes (frame a)]"
  using assms
  by (auto simp: body_defs dispatcher_init_def n_fps_frames_def split: option.splits sum.splits)



section \<open>Properties of the camera loop\<close>

lemmas control_defs = apply_control_def set_exposure_def set_gain_def Let_def

lemma apply_control_frame:
  "cam_q (apply_control u st) = cam_q st"
  "control_queue (apply_control u st) = control_queue st"
  "filter ((=) GetImage) (device_calls (apply_control u st))
     = filter ((=) GetImage) (device_calls st)"
  by (simp_all add: control_defs split: option.splits)

lemma apply_control_queue_update:
  "apply_control u (st\<lparr>control_queue := c\<rparr>) = (apply_control u st)\<lparr>control_queue := c\<rparr>"
  by (simp add: control_defs split: option.splits)

lemma poll_control_frame:
  "cam_q (poll_control st) = cam_q st"
  "filter ((=) GetImage) (device_calls (poll_control st))
     = filter ((=) GetImage) (device_calls st)"
  by (simp_all add: poll_control_def apply_control_frame split: option.splits list.splits)

lemma camera_iteration_continue:
  assumes "\<not> signal_set e"
  shows "\<exists>st1. camera_iteration e st = (True, st1) \<and> cam_q st1 = cam_q st @ [next_image e] \<and>
           length (filter ((=) GetImage) (device_calls st1))
             = Suc (length (filter ((=) GetImage) (device_calls st)))"
  using assms
  by (simp add: camera_iteration_def capture_def controller_writes_def poll_control_frame Let_def)

lemma camera_iteration_break:
  assumes "signal_set e"
  shows "\<exists>st1. camera_iteration e st = (False, st1) \<and> cam_q st1 = cam_q st \<and>
           filter ((=) GetImage) (device_calls st1) = filter ((=) GetImage) (device_calls st)"
  using assms
  by (simp add: camera_iteration_def controller_writes_def poll_control_frame Let_def)


section \<open>The claims\<close>

subsection \<open>C1: the stride stored by a refresh\<close>




subsection \<open>C2: every frame is processed once, in order\<close>

text \<open>
  C2: with a processing function configured, the frames the processing function is called
  on are, in order and without repetition or gap, an initial part of the frames put on the
  queue. They are all of them whenever the run ends as an end of stream behind the last
  frame, that is unless it is cut short by an exception or a timeout. And it does end so,
  with every result on the output queue in the same order, when an output queue is attached,
  the processing function returns on every frame, every frame arrives within the timeout,
  the target display rate is not zero and the clock readings increase.
\<close>

theorem processing_in_order:
  assumes "processing_function cfg = Some pf"
  shows "(\<exists>n\<le>length as. invoked (snd (run cfg t0 out as)) = map frame (take n as)) \<and>
         (fst (run cfg t0 out as) = EndOfStream \<and>
          (\<forall>a\<in>set as. wait a \<le> get_timeout \<and> pf (frame a) \<noteq> Inl Empty) \<longrightarrow>
            invoked (snd (run cfg t0 out as)) = map frame as) \<and>
         (gui_framerate cfg \<noteq> 0 \<and> sorted_wrt (<) (t0 # map now as) \<and>
          (\<forall>a\<in>set as. wait a \<le> get_timeout \<and> pf (frame a) = Inr (g (frame a))) \<longrightarrow>
            fst (run cfg t0 (Some q) as) = EndOfStream \<and>
            invoked (snd (run cfg t0 (Some q) as)) = map frame as \<and>
            output_queue (snd (run cfg t0 (Some q) as)) = Some (q @ map (\<lambda>a. g (frame a)) as))"
proof (intro conjI impI)
  show "\<exists>n\<le>length as. invoked (snd (run cfg t0 out as)) = map frame (take n as)"
    using invoked_prefix [OF assms, where as = as and st = "dispatcher_init t0 out"]
    by (simp add: run_def dispatcher_init_def)
next
  assume "fst (run cfg t0 out as) = EndOfStream \<and>
          (\<forall>a\<in>set as. wait a \<le> get_timeout \<and> pf (frame a) \<noteq> Inl Empty)"
  then show "invoked (snd (run cfg t0 out as)) = map frame as"
    using invoked_all [OF assms, where as = as and st = "dispatcher_init t0 out"]
    by (simp add: run_def dispatcher_init_def)
next
  assume h: "gui_framerate cfg \<noteq> 0 \<and> sorted_wrt (<) (t0 # map now as) \<and>
          (\<forall>a\<in>set as. wait a \<le> get_timeout \<and> pf (frame a) = Inr (g (frame a)))"
  let ?init = "dispatcher_init t0 (Some q) :: ('a, 'b) dispatcher"
  have "sorted_wrt (<) (previous_time ?init # map now as)"
    and "output_queue ?init = Some q" and "every_x ?init \<noteq> 0"
    using h by (simp_all add: dispatcher_init_def)
  from run_loop_completes [OF assms _ _ this, where g = g] h
  obtain st' where "run_loop cfg ?init as = (EndOfStream, st')"
    "invoked st' = invoked ?init @ map frame as"
    "output_queue st' = Some (q @ map (\<lambda>a. g (frame a)) as)" by blast
  then show "fst (run cfg t0 (Some q) as) = EndOfStream"
    and "invoked (snd (run cfg t0 (Some q) as)) = map frame as"
    and "output_queue (snd (run cfg t0 (Some q) as)) = Some (q @ map (\<lambda>a. g (frame a)) as)"
    by (simp_all add: run_def dispatcher_init_def)
qed

theorem processing_in_order_witness:
  "fst (run \<lparr>processing_function = Some (\<lambda>f. Inr (2 * f)), gui_framerate = 30\<rparr> 0 (Some [])
          (steady_frames (1/300) 12)) = EndOfStream \<and>
   invoked (snd (run \<lparr>processing_function = Some (\<lambda>f. Inr (2 * f)), gui_framerate = 30\<rparr> 0
                   (Some []) (steady_frames (1/300) 12)))
     = map frame (steady_frames (1/300) 12) \<and>
   output_queue (snd (run \<lparr>processing_function = Some (\<lambda>f. Inr (2 * f)), gui_framerate = 30\<rparr> 0
                   (Some []) (steady_frames (1/300) 12)))
     = Some (map (\<lambda>a. 2 * frame a) (steady_frames (1/300) 12))"
proof -
  let ?cfg = "\<lparr>processing_function = Some (\<lambda>f. Inr (2 * f)), gui_framerate = 30\<rparr>
                :: (nat, nat) dispatcher_cfg"
  have p: "processing_function ?cfg = Some (\<lambda>f. Inr (2 * f))" by simp
  have d: "gui_framerate ?cfg \<noteq> 0" by simp
  have s: "sorted_wrt (<) (0 # map now (steady_frames (1/300) 12))" by code_simp
  have w: "\<forall>a\<in>set (steady_frames (1/300) 12).
             wait a \<le> get_timeout \<and> (Inr (2 * frame a) :: exn + nat) = Inr (2 * frame a)"
    by (simp add: steady_frames_def get_timeout_def)
  from processing_in_order [OF p, where as = "steady_frames (1/300) 12" and ?t0.0 = 0
         and g = "\<lambda>f. 2 * f" and q = "[]"] d s w
  show ?thesis by simp
qed

subsection \<open>C3: decimation of the display path\<close>



subsection \<open>C4: two control updates before one poll\<close>

text \<open>
  C4, as stated: when two updates are written to the control channel before the camera
  polls it, only the newer one is applied and the values of the older one never reach the
  device. The control queue is a FIFO queue and each iteration takes one item from it:
  after \<^verbatim>\<open>{exposure: 0.02}\<close> and then \<^verbatim>\<open>{gain: 4}\<close> the device is told the exposure
  20 of the older update, an image is read with it, and the exposure stays 20.
\<close>

theorem last_write_wins_counterexample:
  "device_calls (snd (camera_loop (camera_start 0 (Some []))
      [\<lparr>written = [ [''exposure'' \<mapsto> 1/50], [''gain'' \<mapsto> 4] ], signal_set = False,
         next_image = 0::nat\<rparr>,
       \<lparr>written = [], signal_set = False, next_image = 1\<rparr>]))
     = [OpenDevice, StartAcquisition, SetExposure 1000, SetExposure 20, GetImage, SetGain 4,
        GetImage] \<and>
   exposure (snd (camera_loop (camera_start 0 (Some []))
      [\<lparr>written = [ [''exposure'' \<mapsto> 1/50], [''gain'' \<mapsto> 4] ], signal_set = False,
         next_image = 0::nat\<rparr>,
       \<lparr>written = [], signal_set = False, next_image = 1\<rparr>])) = 20"
  by code_simp

text \<open>
  C4, amended: when two updates are written to an empty control queue before the camera
  polls it, and the termination signal is not set, they are applied in the order written,
  one per iteration: the poll of the first iteration applies the older one, an image is
  read, and the newer one stays pending; the poll of the next iteration applies the newer
  one on top. A newer value replaces an older one only for a parameter both updates name.
\<close>

theorem control_updates_fifo:
  assumes "control_queue st = Some []" and "written e1 = [u1, u2]" and "written e2 = []"
    and "\<not> signal_set e1" and "\<not> signal_set e2"
  shows "camera_loop st [e1] =
           (Running, capture (next_image e1) (apply_control u1 st)\<lparr>control_queue := Some [u2]\<rparr>) \<and>
         camera_loop st [e1, e2] =
           (Running, capture (next_image e2) (apply_control u2 (capture (next_image e1) (apply_control u1 st))))"
  using assms
  by (simp add: camera_iteration_def controller_writes_def poll_control_def
      apply_control_queue_update capture_def apply_control_frame Let_def)

theorem control_updates_fifo_witness:
  "exposure (snd (camera_loop (camera_start 0 (Some []))
      [\<lparr>written = [ [''exposure'' \<mapsto> 1/50], [''exposure'' \<mapsto> 1/100] ], signal_set = False,
         next_image = 0::nat\<rparr>])) = 20 \<and>
   exposure (snd (camera_loop (camera_start 0 (Some []))
      [\<lparr>written = [ [''exposure'' \<mapsto> 1/50], [''exposure'' \<mapsto> 1/100] ], signal_set = False,
         next_image = 0::nat\<rparr>,
       \<lparr>written = [], signal_set = False, next_image = 1\<rparr>])) = 10"
proof -
  let ?st = "camera_start 0 (Some []) :: nat camera"
  let ?e1 = "\<lparr>written = [ [''exposure'' \<mapsto> 1/50], [''exposure'' \<mapsto> 1/100] ],
              signal_set = False, next_image = 0::nat\<rparr>"
  let ?e2 = "\<lparr>written = [], signal_set = False, next_image = 1::nat\<rparr>"
  have h: "control_queue ?st = Some []" "written ?e1 = [ [''exposure'' \<mapsto> 1/50], [''exposure'' \<mapsto> 1/100] ]"
    "written ?e2 = []" "\<not> signal_set ?e1" "\<not> signal_set ?e2"
    by (simp_all add: camera_start_def set_exposure_def)
  have v1: "exposure (capture 0 (apply_control [''exposure'' \<mapsto> 1/50] ?st)
                       \<lparr>control_queue := Some [ [''exposure'' \<mapsto> 1/100] ]\<rparr>) = 20"
    by code_simp
  have v2: "exposure (capture 1 (apply_control [''exposure'' \<mapsto> 1/100]
                       (capture 0 (apply_control [''exposure'' \<mapsto> 1/50] ?st)))) = 10"
    by code_simp
  from control_updates_fifo [OF h] v1 v2 show ?thesis by simp
qed

subsection \<open>C5: display with and without processing\<close>




subsection \<open>C6: starvation of the frame queue\<close>

text \<open>
  C6: when the frame queue stays empty for longer than the 5 second timeout of
  \<^verbatim>\<open>get\<close>, whether no frame follows at all or the next one comes too late, the loop
  ends as an end of stream after printing \<^verbatim>\<open>empty_queue\<close>: the run is the same as
  if the input had ended there, the frames behind the gap are never handled, and
  \<^verbatim>\<open>Empty\<close> never leaves \<^verbatim>\<open>run\<close> as an exception.
\<close>

theorem starvation_ends_stream:
  "run_loop cfg st [] = (EndOfStream, st\<lparr>printed := printed st @ [''empty_queue'']\<rparr>) \<and>
   (get_timeout < wait a \<longrightarrow>
      run_loop cfg st (a # rest) = (EndOfStream, st\<lparr>printed := printed st @ [''empty_queue'']\<rparr>) \<and>
      run_loop cfg st (pre @ a # rest) = run_loop cfg st pre) \<and>
   fst (run_loop cfg st (pre @ a # rest)) \<noteq> Raised Empty"
  using run_loop_starved [of a cfg st pre rest] run_loop_no_empty [of cfg st "pre @ a # rest"]
  by (simp add: report_empty_def)

theorem starvation_ends_stream_witness:
  "get_timeout < wait \<lparr>wait = 6, frame = 7::nat, now = 6\<rparr> \<and>
   fst (run (display_only 30) 0 None
          (steady_frames (1/300) 3 @ \<lparr>wait = 6, frame = 7, now = 6\<rparr> # steady_frames (1/300) 3))
     = EndOfStream \<and>
   run (display_only 30) 0 None
     (steady_frames (1/300) 3 @ \<lparr>wait = 6, frame = 7, now = 6\<rparr> # steady_frames (1/300) 3)
     = run (display_only 30) 0 None (steady_frames (1/300) 3)"
proof -
  have h: "get_timeout < wait \<lparr>wait = 6, frame = 7::nat, now = 6\<rparr>"
    by (simp add: get_timeout_def)
  have e: "fst (run (display_only 30) 0 None (steady_frames (1/300) 3)) = EndOfStream"
    by code_simp
  from starvation_ends_stream [of "display_only 30" "dispatcher_init 0 None"
      "\<lparr>wait = 6, frame = 7, now = 6\<rparr>" "steady_frames (1/300) 3" "steady_frames (1/300) 3"] h e
  show ?thesis by (simp add: run_def)
qed

subsection \<open>C7: the termination signal is checked before the device is read\<close>

text \<open>
  C7: in an iteration where the signal is found set, the control poll has been done and
  the loop exits there without reading the device or putting a frame on the queue. So in
  any course of events the frames on the queue are exactly those of the iterations before
  the one that sees the signal, one device read each, whatever would have followed.
\<close>

theorem signal_stops_capture:
  assumes "\<forall>x\<in>set pre. \<not> signal_set x" and "signal_set e"
  shows "camera_iteration e st = (False, poll_control (controller_writes (written e) st)) \<and>
         (\<exists>st'. camera_loop st (pre @ e # post) = (Exited, st') \<and>
            cam_q st' = cam_q st @ map next_image pre \<and>
            length (filter ((=) GetImage) (device_calls st'))
              = length (filter ((=) GetImage) (device_calls st)) + length pre)"
proof
  show "camera_iteration e st = (False, poll_control (controller_writes (written e) st))"
    using assms(2) by (simp add: camera_iteration_def Let_def)
  show "\<exists>st'. camera_loop st (pre @ e # post) = (Exited, st') \<and>
            cam_q st' = cam_q st @ map next_image pre \<and>
            length (filter ((=) GetImage) (device_calls st'))
              = length (filter ((=) GetImage) (device_calls st)) + length pre"
    using assms(1)
  proof (induction pre arbitrary: st)
    case Nil
    from camera_iteration_break [OF assms(2), of st] show ?case by auto
  next
    case (Cons x pre)
    then have "\<not> signal_set x" by simp
    from camera_iteration_continue [OF this, of st] obtain st1
      where s: "camera_iteration x st = (True, st1)" "cam_q st1 = cam_q st @ [next_image x]"
        "length (filter ((=) GetImage) (device_calls st1))
           = Suc (length (filter ((=) GetImage) (device_calls st)))" by blast
    from Cons.IH [of st1] Cons.prems obtain st'
      where "camera_loop st1 (pre @ e # post) = (Exited, st')"
        "cam_q st' = cam_q st1 @ map next_image pre"
        "length (filter ((=) GetImage) (device_calls st'))
           = length (filter ((=) GetImage) (device_calls st1)) + length pre" by auto
    with s show ?case by simp
  qed
qed

theorem signal_stops_capture_witness:
  "fst (camera_loop (camera_start 0 (Some []))
          ([\<lparr>written = [], signal_set = False, next_image = 1::nat\<rparr>,
            \<lparr>written = [], signal_set = False, next_image = 2\<rparr>]
           @ \<lparr>written = [ [''gain'' \<mapsto> 4] ], signal_set = True, next_image = 3\<rparr>
           # [\<lparr>written = [], signal_set = False, next_image = 4\<rparr>])) = Exited \<and>
   cam_q (snd (camera_loop (camera_start 0 (Some []))
          ([\<lparr>written = [], signal_set = False, next_image = 1::nat\<rparr>,
            \<lparr>written = [], signal_set = False, next_image = 2\<rparr>]
           @ \<lparr>written = [ [''gain'' \<mapsto> 4] ], signal_set = True, next_image = 3\<rparr>
           # [\<lparr>written = [], signal_set = False, next_image = 4\<rparr>]))) = [1, 2]"
proof -
  let ?pre = "[\<lparr>written = [], signal_set = False, next_image = 1::nat\<rparr>,
               \<lparr>written = [], signal_set = False, next_image = 2\<rparr>]"
  let ?e = "\<lparr>written = [ [''gain'' \<mapsto> 4] ], signal_set = True, next_image = 3::nat\<rparr>"
  have h1: "\<forall>x\<in>set ?pre. \<not> signal_set x" by simp
  have h2: "signal_set ?e" by simp
  from signal_stops_capture [OF h1 h2, where st = "camera_start 0 (Some [])"
         and post = "[\<lparr>written = [], signal_set = False, next_image = 4\<rparr>]"]
  show ?thesis by (auto simp: camera_start_def set_exposure_def)
qed

subsection \<open>C8: parameters an update does not name\<close>

text \<open>
  C8: applying a control update that does not name the exposure leaves the exposure of the
  device as it was and makes no exposure call; the same for the gain. In particular an
  update with only a gain keeps the exposure, and an update with only an exposure keeps
  the gain.
\<close>

theorem omitted_fields_unchanged:
  "(u ''exposure'' = None \<longrightarrow>
      exposure (apply_control u st) = exposure st \<and>
      (\<forall>v. SetExposure v \<in> set (device_calls (apply_control u st))
            \<longleftrightarrow> SetExposure v \<in> set (device_calls st))) \<and>
   (u ''gain'' = None \<longrightarrow>
      gain (apply_control u st) = gain st \<and>
      (\<forall>g. SetGain g \<in> set (device_calls (apply_control u st))
            \<longleftrightarrow> SetGain g \<in> set (device_calls st)))"
  by (auto simp: control_defs split: option.splits)

theorem omitted_fields_unchanged_witness:
  "[''gain'' \<mapsto> 4::rat] ''exposure'' = None \<and>
   exposure (apply_control [''gain'' \<mapsto> 4]
               (apply_control [''exposure'' \<mapsto> 1/100] (camera_start 0 None :: nat camera))) = 10 \<and>
   [''exposure'' \<mapsto> 1/100::rat] ''gain'' = None \<and>
   gain (apply_control [''exposure'' \<mapsto> 1/100] (camera_start 7 None :: nat camera)) = 7"
proof -
  have e: "exposure (apply_control [''exposure'' \<mapsto> 1/100] (camera_start 0 None :: nat camera)) = 10"
    by code_simp
  have g: "gain (camera_start 7 None :: nat camera) = 7"
    by (simp add: camera_start_def set_exposure_def)
  from omitted_fields_unchanged [of "[''gain'' \<mapsto> 4]"
         "apply_control [''exposure'' \<mapsto> 1/100] (camera_start 0 None :: nat camera)"]
       omitted_fields_unchanged [of "[''exposure'' \<mapsto> 1/100]" "camera_start 7 None :: nat camera"]
       e g
  show ?thesis by simp
qed

subsection \<open>C9: the exposure passed to the device\<close>




subsection \<open>C10: the first frame and the initial stride\<close>

text \<open>
  C10, as stated: for every configuration and every non-empty input the first frame popped
  is put on the GUI queue. Processing comes first in the iteration, and an exception of the
  processing step ends the run before the display step: with a processing function that
  raises on the first frame nothing is displayed.
\<close>

theorem first_frame_displayed_counterexample:
  "steady_frames (1/300) 1 \<noteq> [] \<and>
   fst (run \<lparr>processing_function = Some (\<lambda>f. Inl ProcessingError), gui_framerate = 30\<rparr> 0
          (Some ([]::nat list)) (steady_frames (1/300) 1)) = Raised ProcessingError \<and>
   gui_queue (snd (run \<lparr>processing_function = Some (\<lambda>f. Inl ProcessingError),
                       gui_framerate = 30\<rparr> 0
                     (Some ([]::nat list)) (steady_frames (1/300) 1))) = []"
  by code_simp

text \<open>
  C10, amended: for every target display rate (zero included) and every input whose first
  frame arrives within the timeout, if the processing step does not raise on that frame
  (as when no processing function is configured) then the frame is the first item on the
  GUI queue: the phase counter starts at zero. The stride starts at 10 and is still 10
  after any fewer than ten frames, whatever the target display rate and however the
  frames were handled.
\<close>

theorem first_frame_displayed:
  assumes "wait a \<le> get_timeout"
    and "process_frame cfg (frame a) (dispatcher_init t0 out) = Done st1"
  shows "self_i (dispatcher_init t0 out :: ('f, 'r) dispatcher) = 0 \<and>
         every_x (dispatcher_init t0 out :: ('f, 'r) dispatcher) = 10 \<and>
         (\<exists>more. gui_queue (snd (run cfg t0 out (a # rest))) = Swapaxes (frame a) # more) \<and>
         (length pre < 10 \<longrightarrow>
            (case handle_frames cfg (dispatcher_init t0 out) pre of
               Done st \<Rightarrow> every_x st = 10
             | Raise e st \<Rightarrow> every_x st = 10))"
proof (intro conjI impI)
  show "self_i (dispatcher_init t0 out :: ('f, 'r) dispatcher) = 0"
    and "every_x (dispatcher_init t0 out :: ('f, 'r) dispatcher) = 10"
    by (simp_all add: dispatcher_init_def)
next
  from first_frame_body [OF assms(2)] obtain st2
    where b: "loop_body cfg a (dispatcher_init t0 out) = Done st2"
      and g: "gui_queue st2 = [Swapaxes (frame a)]" by blast
  from gui_queue_grows [of cfg st2 rest] obtain more
    where "gui_queue (snd (run_loop cfg st2 rest)) = gui_queue st2 @ more" by blast
  then have "gui_queue (snd (run cfg t0 out (a # rest))) = Swapaxes (frame a) # more"
    using assms(1) b g by (simp add: run_def)
  then show "\<exists>more. gui_queue (snd (run cfg t0 out (a # rest))) = Swapaxes (frame a) # more"
    by blast
next
  assume "length pre < 10"
  then show "case handle_frames cfg (dispatcher_init t0 out) pre of
               Done st \<Rightarrow> every_x st = 10
             | Raise e st \<Rightarrow> every_x st = 10"
    using first_window_stride [where st = "dispatcher_init t0 out" and pre = pre and cfg = cfg]
    by (simp add: dispatcher_init_def n_fps_frames_def split: res.splits)
qed

theorem first_frame_displayed_witness:
  "wait \<lparr>wait = 1, frame = 5::nat, now = 1\<rparr> \<le> get_timeout \<and>
   (\<exists>more. gui_queue (snd (run (display_only 0) 0 None
                             (\<lparr>wait = 1, frame = 5, now = 1\<rparr> # steady_frames (1/300) 12)))
            = Swapaxes 5 # more) \<and>
   length (steady_frames (1/300) 9) < 10 \<and>
   (case handle_frames (display_only 0) (dispatcher_init 0 None) (steady_frames (1/300) 9) of
      Done st \<Rightarrow> every_x st = 10
    | Raise e st \<Rightarrow> every_x st = 10)"
proof -
  have h1: "wait \<lparr>wait = 1, frame = 5::nat, now = 1\<rparr> \<le> get_timeout"
    by (simp add: get_timeout_def)
  have h2: "process_frame (display_only 0) (frame \<lparr>wait = 1, frame = 5::nat, now = 1\<rparr>)
              (dispatcher_init 0 None) = Done (dispatcher_init 0 None)"
    by (simp add: process_frame_def display_only_def)
  have l: "length (steady_frames (1/300) 9) < 10" by (simp add: steady_frames_def)
  from first_frame_displayed [where ?'f = nat and ?'r = nat, OF h1 h2,
         where rest = "steady_frames (1/300) 12" and pre = "steady_frames (1/300) 9"] h1 l
  show ?thesis by simp
qed

end
